theory Spec2Isabelle
  imports
    Complex_Main
    "HOL-Library.Char_ord"
    "HOL-Library.List_Lexorder"
    "HOL-Library.Product_Lexorder"
begin

section \<open>Strings, errors and floats of the dashboard\<close>

text \<open>
  The theory embeds \<^verbatim>\<open>dashboard.py\<close>: the resource value parser, the decoders of the
  pod listing, the node listing and the \<^verbatim>\<open>kubectl top nodes\<close> table, the node view join
  and the pod count tables.

  A Python \<^verbatim>\<open>str\<close> is a \<^typ>\<open>string\<close> whose characters are the code points below 256.
  An exception is a value of \<open>error\<close>; a function that can raise returns
  \<open>error + 'a\<close>, with \<open>Inl\<close> for the exception.
\<close>

datatype error = ValueError | TypeError | AttributeError | KeyError | ZeroDivisionError
  | NonStringCell

text \<open>
  A Python float is an exact rational, an infinity or NaN: rounding to binary64 and
  overflow to infinity are not modelled, and the two zeros are one.
\<close>

datatype pyfloat = Fin rat | PosInf | NegInf | NaN

fun fneg :: "pyfloat \<Rightarrow> pyfloat" where
  "fneg (Fin a) = Fin (- a)"
| "fneg PosInf = NegInf"
| "fneg NegInf = PosInf"
| "fneg NaN = NaN"

text \<open>\<^verbatim>\<open>x * k\<close> for a finite \<open>k\<close> (the multipliers are Python ints, converted exactly).\<close>

fun fmul :: "pyfloat \<Rightarrow> rat \<Rightarrow> pyfloat" where
  "fmul (Fin a) k = Fin (a * k)"
| "fmul PosInf k = (if 0 < k then PosInf else if k < 0 then NegInf else NaN)"
| "fmul NegInf k = (if 0 < k then NegInf else if k < 0 then PosInf else NaN)"
| "fmul NaN k = NaN"

text \<open>\<^verbatim>\<open>x / d\<close> for a finite \<open>d\<close>; Python raises ZeroDivisionError when \<open>d\<close> is zero.\<close>

fun fdiv :: "pyfloat \<Rightarrow> rat \<Rightarrow> error + pyfloat" where
  "fdiv x d =
     (if d = 0 then Inl ZeroDivisionError
      else Inr (case x of
                  Fin a \<Rightarrow> Fin (a / d)
                | PosInf \<Rightarrow> (if 0 < d then PosInf else NegInf)
                | NegInf \<Rightarrow> (if 0 < d then NegInf else PosInf)
                | NaN \<Rightarrow> NaN))"


subsection \<open>Character classes\<close>

text \<open>\<^verbatim>\<open>str.isspace\<close> on the code points below 256.\<close>

definition isspace :: "char \<Rightarrow> bool" where
  "isspace c \<longleftrightarrow>
     c \<in> set [CHR 0x09, CHR 0x0A, CHR 0x0B, CHR 0x0C, CHR 0x0D, CHR 0x1C, CHR 0x1D,
              CHR 0x1E, CHR 0x1F, CHR 0x20, CHR 0x85, CHR 0xA0]"

text \<open>
  The whitespace \<^verbatim>\<open>float()\<close> removes at both ends: the ASCII whitespace of the C
  parser, and the two Unicode spaces below 256, which CPython turns into a blank first.
\<close>

definition float_space :: "char \<Rightarrow> bool" where
  "float_space c \<longleftrightarrow>
     c \<in> set [CHR 0x09, CHR 0x0A, CHR 0x0B, CHR 0x0C, CHR 0x0D, CHR 0x20, CHR 0x85, CHR 0xA0]"

text \<open>The decimal digits \<^verbatim>\<open>float()\<close> reads.\<close>

definition is_decimal :: "char \<Rightarrow> bool" where
  "is_decimal c \<longleftrightarrow> c \<in> set ''0123456789''"

text \<open>
  \<^verbatim>\<open>str.isdigit\<close> on one character: the decimal digits and the superscript digits
  one, two and three (0xB9, 0xB2, 0xB3), which are digits but not decimals.
\<close>

definition isdigit_char :: "char \<Rightarrow> bool" where
  "isdigit_char c \<longleftrightarrow> is_decimal c \<or> c \<in> set [CHR 0xB2, CHR 0xB3, CHR 0xB9]"

definition digit_val :: "char \<Rightarrow> nat" where
  "digit_val c = of_char c - 48"

definition nat_of_digits :: "string \<Rightarrow> nat" where
  "nat_of_digits ds = foldl (\<lambda>a c. 10 * a + digit_val c) 0 ds"

definition to_lower :: "char \<Rightarrow> char" where
  "to_lower c = (if c \<in> set ''ABCDEFGHIJKLMNOPQRSTUVWXYZ''
                 then char_of (of_char c + (32::nat)) else c)"

subsection \<open>\<^verbatim>\<open>float(s)\<close>\<close>

text \<open>
  Underscores are allowed between two digits only. The loop walks the string with the
  previous character and drops the underscores, or fails.
\<close>

fun strip_underscores :: "char option \<Rightarrow> string \<Rightarrow> string option" where
  "strip_underscores prev [] = (if prev = Some CHR ''_'' then None else Some [])"
| "strip_underscores prev (c # cs) =
     (if c = CHR ''_'' then
        (case prev of
           None \<Rightarrow> None
         | Some p \<Rightarrow> if is_decimal p then strip_underscores (Some c) cs else None)
      else if prev = Some CHR ''_'' \<and> \<not> is_decimal c then None
      else map_option ((#) c) (strip_underscores (Some c) cs))"

definition float_strip :: "string \<Rightarrow> string" where
  "float_strip s = rev (dropWhile float_space (rev (dropWhile float_space s)))"

definition pow10 :: "int \<Rightarrow> rat" where
  "pow10 e = (if 0 \<le> e then 10 ^ nat e else 1 / 10 ^ nat (- e))"

text \<open>
  What follows the mantissa: nothing, or \<^verbatim>\<open>e\<close> or \<^verbatim>\<open>E\<close>, an optional sign and at
  least one digit, up to the end of the string.
\<close>

definition parse_exponent :: "string \<Rightarrow> int option" where
  "parse_exponent s =
     (case s of
        [] \<Rightarrow> Some 0
      | c # t \<Rightarrow>
          if c = CHR ''e'' \<or> c = CHR ''E'' then
            (let (neg, ds) = (case t of
                                [] \<Rightarrow> (False, t)
                              | d # u \<Rightarrow> if d = CHR ''-'' then (True, u)
                                         else if d = CHR ''+'' then (False, u)
                                         else (False, t))
             in if ds \<noteq> [] \<and> list_all is_decimal ds
                then Some (if neg then - int (nat_of_digits ds) else int (nat_of_digits ds))
                else None)
          else None)"

text \<open>
  An unsigned decimal: digits, an optional point and digits, with at least one digit
  in all, then the exponent.
\<close>

definition parse_decimal :: "string \<Rightarrow> rat option" where
  "parse_decimal s =
     (let ip = takeWhile is_decimal s;
          r1 = dropWhile is_decimal s;
          (fp, r2) = (case r1 of
                        [] \<Rightarrow> ([], r1)
                      | c # t \<Rightarrow> if c = CHR ''.''
                                 then (takeWhile is_decimal t, dropWhile is_decimal t)
                                 else ([], r1))
      in if ip = [] \<and> fp = [] then None
         else (case parse_exponent r2 of
                 None \<Rightarrow> None
               | Some e \<Rightarrow>
                   Some (of_nat (nat_of_digits (ip @ fp)) * pow10 (e - int (length fp)))))"

definition parse_abs :: "string \<Rightarrow> pyfloat option" where
  "parse_abs s =
     (let l = map to_lower s
      in if l = ''inf'' \<or> l = ''infinity'' then Some PosInf
         else if l = ''nan'' then Some NaN
         else map_option Fin (parse_decimal s))"

definition parse_signed :: "string \<Rightarrow> pyfloat option" where
  "parse_signed s =
     (case s of
        [] \<Rightarrow> None
      | c # t \<Rightarrow> if c = CHR ''-'' then map_option fneg (parse_abs t)
                 else if c = CHR ''+'' then parse_abs t
                 else parse_abs s)"

definition py_float :: "string \<Rightarrow> error + pyfloat" where
  "py_float s =
     (case strip_underscores None s of
        None \<Rightarrow> Inl ValueError
      | Some u \<Rightarrow>
          (case parse_signed (float_strip u) of
             None \<Rightarrow> Inl ValueError
           | Some x \<Rightarrow> Inr x))"

section \<open>The resource value parser\<close>

definition endswith :: "string \<Rightarrow> string \<Rightarrow> bool" where
  "endswith v suf \<longleftrightarrow> length suf \<le> length v \<and> drop (length v - length suf) v = suf"

text \<open>\<^verbatim>\<open>v.replace(".", "", 1)\<close>: the first point is removed.\<close>

definition replace_first_dot :: "string \<Rightarrow> string" where
  "replace_first_dot v =
     takeWhile (\<lambda>c. c \<noteq> CHR ''.'') v @ drop 1 (dropWhile (\<lambda>c. c \<noteq> CHR ''.'') v)"

text \<open>\<^verbatim>\<open>s.isdigit()\<close>: at least one character, and every character a digit.\<close>

definition isdigit :: "string \<Rightarrow> bool" where
  "isdigit s \<longleftrightarrow> s \<noteq> [] \<and> list_all isdigit_char s"

text \<open>The dict of multipliers, in its insertion order, which is the order of the loop.\<close>

definition multipliers :: "(string \<times> int) list" where
  "multipliers =
     [(''Ki'', 1024), (''Mi'', 1024 ^ 2), (''Gi'', 1024 ^ 3), (''Ti'', 1024 ^ 4),
      (''K'', 1000), (''M'', 1000 ^ 2), (''G'', 1000 ^ 3), (''T'', 1000 ^ 4)]"

text \<open>
  The loop over the multipliers: the first suffix the string ends with decides.
  Only ValueError is caught.
\<close>

fun suffix_loop :: "string \<Rightarrow> (string \<times> int) list \<Rightarrow> error + pyfloat" where
  "suffix_loop v [] = Inr (Fin 0)"
| "suffix_loop v ((suf, factor) # rest) =
     (if endswith v suf then
        (case py_float (take (length v - length suf) v) of
           Inl e \<Rightarrow> if e = ValueError then Inr (Fin 0) else Inl e
         | Inr x \<Rightarrow> Inr (fmul x (of_int factor)))
      else suffix_loop v rest)"

text \<open>
  \<^verbatim>\<open>parse_resource_value(v)\<close> for \<open>v\<close> None or a string; for a value of another
  type the string is its \<^verbatim>\<open>str\<close>, taken by the caller (\<open>resource_arg\<close> below). The
  conversion to float of the millicore branch and of the plain number branch is outside
  any \<^verbatim>\<open>try\<close>.
\<close>

definition parse_resource_value :: "string option \<Rightarrow> error + pyfloat" where
  "parse_resource_value v0 =
     (case v0 of
        None \<Rightarrow> Inr (Fin 0)
      | Some v \<Rightarrow>
          if v = [] then Inr (Fin 0)
          else if endswith v ''m'' then
            (case py_float (butlast v) of
               Inl e \<Rightarrow> Inl e
             | Inr x \<Rightarrow> fdiv x 1000)
          else if isdigit (replace_first_dot v) then py_float v
          else suffix_loop v multipliers)"

section \<open>Payloads and dictionary access\<close>

text \<open>
  What \<^verbatim>\<open>json.loads\<close> returns: None, bool, int, float, str, list or dict.
  A dict is an association list in which the first binding of a key is its value.
\<close>

datatype json = JNull | JBool bool | JInt int | JFloat pyfloat | JStr string
  | JArr "json list" | JObj "(string \<times> json) list"

text \<open>\<^verbatim>\<open>d.get(k, default)\<close>: only a dict has the method.\<close>

fun dict_get :: "json \<Rightarrow> string \<Rightarrow> json \<Rightarrow> error + json" where
  "dict_get (JObj kvs) k d = Inr (case map_of kvs k of None \<Rightarrow> d | Some v \<Rightarrow> v)"
| "dict_get JNull k d = Inl AttributeError"
| "dict_get (JBool b) k d = Inl AttributeError"
| "dict_get (JInt i) k d = Inl AttributeError"
| "dict_get (JFloat x) k d = Inl AttributeError"
| "dict_get (JStr s) k d = Inl AttributeError"
| "dict_get (JArr xs) k d = Inl AttributeError"

text \<open>
  \<^verbatim>\<open>for item in x\<close>: a list gives its elements, a dict its keys, a string its
  characters; nothing else can be iterated.
\<close>

fun py_iter :: "json \<Rightarrow> error + json list" where
  "py_iter (JArr xs) = Inr xs"
| "py_iter (JObj kvs) = Inr (map JStr (rev (remdups (rev (map fst kvs)))))"
| "py_iter (JStr s) = Inr (map (\<lambda>c. JStr [c]) s)"
| "py_iter JNull = Inl TypeError"
| "py_iter (JBool b) = Inl TypeError"
| "py_iter (JInt i) = Inl TypeError"
| "py_iter (JFloat x) = Inl TypeError"

definition bind_err :: "error + 'a \<Rightarrow> ('a \<Rightarrow> error + 'b) \<Rightarrow> error + 'b" where
  "bind_err m f = (case m of Inl e \<Rightarrow> Inl e | Inr v \<Rightarrow> f v)"

text \<open>A loop that appends one row per element and stops at the first exception.\<close>

fun map_err :: "('a \<Rightarrow> error + 'b) \<Rightarrow> 'a list \<Rightarrow> error + 'b list" where
  "map_err f [] = Inr []"
| "map_err f (x # xs) =
     (case f x of
        Inl e \<Rightarrow> Inl e
      | Inr y \<Rightarrow> (case map_err f xs of Inl e \<Rightarrow> Inl e | Inr ys \<Rightarrow> Inr (y # ys)))"

text \<open>
  The frames that are sorted, grouped or joined hold strings in their text columns. The
  source stores whatever \<^verbatim>\<open>get\<close> returned; a value that is not a string (a number,
  null, a list, a dict) reaches pandas, whose sorting, grouping and joining of such
  cells is not modelled: the model stops there with \<open>NonStringCell\<close>.
\<close>

fun text_cell :: "json \<Rightarrow> error + string" where
  "text_cell (JStr s) = Inr s"
| "text_cell JNull = Inl NonStringCell"
| "text_cell (JBool b) = Inl NonStringCell"
| "text_cell (JInt i) = Inl NonStringCell"
| "text_cell (JFloat x) = Inl NonStringCell"
| "text_cell (JArr xs) = Inl NonStringCell"
| "text_cell (JObj kvs) = Inl NonStringCell"

section \<open>The pod listing\<close>

record pod_row =
  microservice :: string
  svc_id :: string
  pod :: string
  node :: string
  phase :: string

text \<open>The body of the loop of \<^verbatim>\<open>get_pods\<close>.\<close>

definition pod_row_of :: "json \<Rightarrow> error + pod_row" where
  "pod_row_of item =
     bind_err (dict_get item ''metadata'' (JObj [])) (\<lambda>meta.
     bind_err (dict_get item ''spec'' (JObj [])) (\<lambda>spec.
     bind_err (dict_get item ''status'' (JObj [])) (\<lambda>status.
     bind_err (dict_get meta ''labels'' (JObj [])) (\<lambda>labels.
     bind_err (dict_get labels ''app'' (JStr [])) (\<lambda>c1.
     bind_err (dict_get labels ''svc-id'' (JStr [])) (\<lambda>c2.
     bind_err (dict_get meta ''name'' (JStr [])) (\<lambda>c3.
     bind_err (dict_get spec ''nodeName'' (JStr [])) (\<lambda>c4.
     bind_err (dict_get status ''phase'' (JStr [])) (\<lambda>c5.
     bind_err (text_cell c1) (\<lambda>s1.
     bind_err (text_cell c2) (\<lambda>s2.
     bind_err (text_cell c3) (\<lambda>s3.
     bind_err (text_cell c4) (\<lambda>s4.
     bind_err (text_cell c5) (\<lambda>s5.
       Inr \<lparr>microservice = s1, svc_id = s2, pod = s3, node = s4, phase = s5\<rparr>
     ))))))))))))))"

text \<open>
  \<^verbatim>\<open>df.sort_values(["microservice", "pod"])\<close>: pandas sorts on several columns
  with a stable lexicographic sort, and strings compare by code point.
\<close>

definition sort_values :: "pod_row list \<Rightarrow> pod_row list" where
  "sort_values rows = sort_key (\<lambda>r. (microservice r, pod r)) rows"

text \<open>
  The part of \<^verbatim>\<open>get_pods\<close> after \<^verbatim>\<open>json.loads\<close>: the rows in the order of the
  items, sorted unless the frame is empty.
\<close>

definition pod_rows :: "json \<Rightarrow> error + pod_row list" where
  "pod_rows data =
     bind_err (dict_get data ''items'' (JArr [])) (\<lambda>its.
     bind_err (py_iter its) (\<lambda>items.
       map_err pod_row_of items))"

definition decode_pods :: "json \<Rightarrow> error + pod_row list" where
  "decode_pods data =
     bind_err (pod_rows data) (\<lambda>rows.
       Inr (if rows = [] then rows else sort_values rows))"

section \<open>Running a command\<close>

text \<open>
  What \<^verbatim>\<open>subprocess.run\<close> does with a command is an input of the model: it completes
  with its two outputs and its return code, or it raises.
\<close>

datatype exec_outcome = Completed string string int | Raised string

definition strip :: "string \<Rightarrow> string" where
  "strip s = rev (dropWhile isspace (rev (dropWhile isspace s)))"

definition run_cmd :: "(string list \<Rightarrow> exec_outcome) \<Rightarrow> string list \<Rightarrow> string \<times> string \<times> int" where
  "run_cmd exec cmd =
     (case exec cmd of
        Completed out err rc \<Rightarrow> (strip out, strip err, rc)
      | Raised e \<Rightarrow> ([], e, 1))"

text \<open>
  The values a variable such as \<^verbatim>\<open>out\<close> can hold: a string, or the triple that
  \<^verbatim>\<open>run_cmd\<close> returns. A tuple is false only when it has no element;
  \<^verbatim>\<open>json.loads\<close> takes a string and raises TypeError on a tuple; a tuple has no
  method \<^verbatim>\<open>splitlines\<close>. The parser of JSON text is a parameter.
\<close>

datatype pyobj = PStr string | PTuple "string \<times> string \<times> int"

fun truthy :: "pyobj \<Rightarrow> bool" where
  "truthy (PStr s) = (s \<noteq> [])"
| "truthy (PTuple t) = True"

fun json_loads :: "(string \<Rightarrow> error + json) \<Rightarrow> pyobj \<Rightarrow> error + json" where
  "json_loads loads (PStr s) = loads s"
| "json_loads loads (PTuple t) = Inl TypeError"

definition get_pods ::
  "(string list \<Rightarrow> exec_outcome) \<Rightarrow> (string \<Rightarrow> error + json) \<Rightarrow> string \<Rightarrow> error + pod_row list"
where
  "get_pods exec loads namespace =
     (let out = PTuple (run_cmd exec [''kubectl'', ''get'', ''pods'', ''-n'', namespace, ''-o'', ''json''])
      in if \<not> truthy out then Inr []
         else bind_err (json_loads loads out) decode_pods)"

section \<open>The node listing\<close>

text \<open>
  A row of the base frame. The name is a string in the frames the view is built from;
  the decoder stores whatever \<^verbatim>\<open>meta.get("name", "")\<close> returned.
\<close>

record 'n node_row =
  base_node :: 'n
  cpu_capacity_cores :: pyfloat
  mem_capacity_bytes :: pyfloat
  cpu_alloc_cores :: pyfloat
  mem_alloc_bytes :: pyfloat

text \<open>
  The argument of the parser after its first two lines: None stays None, a string is
  itself, and any other value goes through \<^verbatim>\<open>str\<close>. Python's \<^verbatim>\<open>str\<close> is a
  parameter, \<open>str_of\<close>. (The empty string that \<^verbatim>\<open>str\<close> might return is treated by
  \<open>parse_resource_value\<close> as the empty input, with the result 0.0 that the rest of the
  source function gives on the empty string.)
\<close>

fun resource_arg :: "(json \<Rightarrow> string) \<Rightarrow> json \<Rightarrow> string option" where
  "resource_arg str_of JNull = None"
| "resource_arg str_of (JStr s) = Some s"
| "resource_arg str_of (JBool b) = Some (str_of (JBool b))"
| "resource_arg str_of (JInt i) = Some (str_of (JInt i))"
| "resource_arg str_of (JFloat x) = Some (str_of (JFloat x))"
| "resource_arg str_of (JArr xs) = Some (str_of (JArr xs))"
| "resource_arg str_of (JObj kvs) = Some (str_of (JObj kvs))"

text \<open>\<^verbatim>\<open>parse_resource_value(d.get(k))\<close>\<close>

definition get_quantity :: "(json \<Rightarrow> string) \<Rightarrow> json \<Rightarrow> string \<Rightarrow> error + pyfloat" where
  "get_quantity str_of d k =
     bind_err (dict_get d k JNull) (\<lambda>j. parse_resource_value (resource_arg str_of j))"

text \<open>The body of the first loop of \<^verbatim>\<open>get_node_info\<close>.\<close>

definition node_row_of :: "(json \<Rightarrow> string) \<Rightarrow> json \<Rightarrow> error + json node_row" where
  "node_row_of str_of item =
     bind_err (dict_get item ''metadata'' (JObj [])) (\<lambda>meta.
     bind_err (dict_get item ''status'' (JObj [])) (\<lambda>status.
     bind_err (dict_get meta ''name'' (JStr [])) (\<lambda>name.
     bind_err (dict_get status ''capacity'' (JObj [])) (\<lambda>capacity.
     bind_err (dict_get status ''allocatable'' (JObj [])) (\<lambda>alloc.
     bind_err (get_quantity str_of capacity ''cpu'') (\<lambda>q1.
     bind_err (get_quantity str_of capacity ''memory'') (\<lambda>q2.
     bind_err (get_quantity str_of alloc ''cpu'') (\<lambda>q3.
     bind_err (get_quantity str_of alloc ''memory'') (\<lambda>q4.
       Inr \<lparr>base_node = name, cpu_capacity_cores = q1, mem_capacity_bytes = q2,
            cpu_alloc_cores = q3, mem_alloc_bytes = q4\<rparr>
     )))))))))"

definition decode_nodes :: "(json \<Rightarrow> string) \<Rightarrow> json \<Rightarrow> error + json node_row list" where
  "decode_nodes str_of data =
     bind_err (dict_get data ''items'' (JArr [])) (\<lambda>its.
     bind_err (py_iter its) (\<lambda>items.
       map_err (node_row_of str_of) items))"

section \<open>The utilization table\<close>

record metric_row =
  metric_node :: string
  cpu_used_cores_raw :: string
  cpu_used_cores :: pyfloat
  cpu_used_pct :: string
  mem_used_bytes_raw :: string
  mem_used_bytes :: pyfloat
  mem_used_pct :: string

text \<open>\<^verbatim>\<open>line.split()\<close>: the maximal runs of characters that are not whitespace.\<close>

fun split_acc :: "string \<Rightarrow> string \<Rightarrow> string list" where
  "split_acc cur [] = (if cur = [] then [] else [cur])"
| "split_acc cur (c # cs) =
     (if isspace c then (if cur = [] then split_acc [] cs else cur # split_acc [] cs)
      else split_acc (cur @ [c]) cs)"

definition split :: "string \<Rightarrow> string list" where
  "split s = split_acc [] s"

text \<open>
  \<^verbatim>\<open>text.splitlines()\<close>: a line ends at a line boundary, the pair CR LF is one
  boundary, and no empty line follows the last boundary.
\<close>

definition is_linebreak :: "char \<Rightarrow> bool" where
  "is_linebreak c \<longleftrightarrow>
     c \<in> set [CHR 0x0A, CHR 0x0B, CHR 0x0C, CHR 0x0D, CHR 0x1C, CHR 0x1D, CHR 0x1E, CHR 0x85]"

fun splitlines_acc :: "string \<Rightarrow> string \<Rightarrow> string list" where
  "splitlines_acc cur [] = (if cur = [] then [] else [cur])"
| "splitlines_acc cur [c] =
     (if is_linebreak c then [cur] else [cur @ [c]])"
| "splitlines_acc cur (c # d # cs) =
     (if c = CHR 0x0D \<and> d = CHR 0x0A then cur # splitlines_acc [] cs
      else if is_linebreak c then cur # splitlines_acc [] (d # cs)
      else splitlines_acc (cur @ [c]) (d # cs))"

fun splitlines :: "pyobj \<Rightarrow> error + string list" where
  "splitlines (PStr s) = Inr (splitlines_acc [] s)"
| "splitlines (PTuple t) = Inl AttributeError"

definition metric_row_of :: "string list \<Rightarrow> error + metric_row" where
  "metric_row_of parts =
     bind_err (parse_resource_value (Some (parts ! 1))) (\<lambda>cpu.
     bind_err (parse_resource_value (Some (parts ! 3))) (\<lambda>mem.
       Inr \<lparr>metric_node = parts ! 0, cpu_used_cores_raw = parts ! 1, cpu_used_cores = cpu,
            cpu_used_pct = parts ! 2, mem_used_bytes_raw = parts ! 3, mem_used_bytes = mem,
            mem_used_pct = parts ! 4\<rparr>))"

text \<open>The loop over the lines: a line with fewer than five fields gives no row.\<close>

fun metric_loop :: "string list \<Rightarrow> error + metric_row list" where
  "metric_loop [] = Inr []"
| "metric_loop (line # rest) =
     (let parts = split line
      in if 5 \<le> length parts then
           (case metric_row_of parts of
              Inl e \<Rightarrow> Inl e
            | Inr r \<Rightarrow> (case metric_loop rest of Inl e \<Rightarrow> Inl e | Inr rs \<Rightarrow> Inr (r # rs)))
         else metric_loop rest)"

definition decode_top :: "pyobj \<Rightarrow> error + metric_row list" where
  "decode_top top_out =
     (if truthy top_out then bind_err (splitlines top_out) metric_loop else Inr [])"

section \<open>The node view\<close>

text \<open>
  The merged frame is either the base frame itself, which has no utilization column,
  or the left join, whose utilization cells are filled or missing. A frame is empty
  when it has no row. The names of both frames are strings.
\<close>

datatype node_view = Base "string node_row list"
  | Merged "(string node_row \<times> metric_row option) list"

text \<open>
  \<^verbatim>\<open>pd.merge(base_df, metrics_df, on="node", how="left")\<close>: the rows of the left
  frame in their order, each one once per matching row of the right frame, in the
  order of the right frame, and once with missing cells when nothing matches.
\<close>

definition merge_left ::
  "string node_row list \<Rightarrow> metric_row list \<Rightarrow> (string node_row \<times> metric_row option) list"
where
  "merge_left base_df metrics_df =
     concat (map (\<lambda>b.
       (case filter (\<lambda>m. metric_node m = base_node b) metrics_df of
          [] \<Rightarrow> [(b, None)]
        | ms \<Rightarrow> map (\<lambda>m. (b, Some m)) ms)) base_df)"

definition build_node_view :: "string node_row list \<Rightarrow> metric_row list \<Rightarrow> node_view" where
  "build_node_view base_df metrics_df =
     (if base_df \<noteq> [] \<and> metrics_df \<noteq> [] then Merged (merge_left base_df metrics_df)
      else Base base_df)"

text \<open>The rows of a view, with the utilization of a row when it has one.\<close>

fun view_rows :: "node_view \<Rightarrow> (string node_row \<times> metric_row option) list" where
  "view_rows (Base rows) = map (\<lambda>b. (b, None)) rows"
| "view_rows (Merged rows) = rows"

text \<open>
  The whole of \<^verbatim>\<open>get_node_info\<close>. The view is modelled for frames whose names are
  strings, so a decoded row enters it through \<open>named\<close>, which stops on any other name.
  No run gets that far: like \<^verbatim>\<open>get_pods\<close>, the function hands the triple of
  \<^verbatim>\<open>run_cmd\<close> to \<^verbatim>\<open>json.loads\<close>.
\<close>

definition named :: "json node_row \<Rightarrow> error + string node_row" where
  "named r =
     bind_err (text_cell (base_node r)) (\<lambda>n.
       Inr \<lparr>base_node = n, cpu_capacity_cores = cpu_capacity_cores r,
            mem_capacity_bytes = mem_capacity_bytes r,
            cpu_alloc_cores = cpu_alloc_cores r, mem_alloc_bytes = mem_alloc_bytes r\<rparr>)"

definition get_node_info ::
  "(string list \<Rightarrow> exec_outcome) \<Rightarrow> (string \<Rightarrow> error + json) \<Rightarrow> (json \<Rightarrow> string)
     \<Rightarrow> error + (node_view \<times> metric_row list)"
where
  "get_node_info exec loads str_of =
     (let out = PTuple (run_cmd exec [''kubectl'', ''get'', ''nodes'', ''-o'', ''json''])
      in if \<not> truthy out then Inr (Base [], [])
         else
           bind_err (json_loads loads out) (\<lambda>data.
           bind_err (decode_nodes str_of data) (\<lambda>rows.
           bind_err (decode_top (PTuple (run_cmd exec [''kubectl'', ''top'', ''nodes'', ''--no-headers'']))) (\<lambda>metrics_df.
           bind_err (map_err named rows) (\<lambda>base_df.
             Inr (build_node_view base_df metrics_df, metrics_df))))))"

section \<open>The pod count tables\<close>

text \<open>
  \<^verbatim>\<open>df.groupby(keys).size()\<close>: one entry per key that occurs, in ascending order of
  the keys, with the number of rows that have the key. The frame of an empty list of
  rows has no column, and grouping it raises KeyError.
\<close>

definition groupby_size :: "('r \<Rightarrow> 'k::linorder) \<Rightarrow> 'r list \<Rightarrow> error + ('k \<times> int) list" where
  "groupby_size key rows =
     (if rows = [] then Inl KeyError
      else Inr (map (\<lambda>k. (k, int (length (filter (\<lambda>r. key r = k) rows))))
                 (sort (remdups (map key rows)))))"

text \<open>
  \<^verbatim>\<open>g.pivot(index="node", columns="microservice", values="pods")\<close>: one line per
  node and one column per microservice, both ascending; a cell holds the count of its
  pair or is missing. Two entries of one pair cannot be reshaped: ValueError.
\<close>

definition pivot :: "((string \<times> string) \<times> int) list \<Rightarrow> error + (string \<times> (string \<times> int option) list) list" where
  "pivot g =
     (if \<not> distinct (map fst g) then Inl ValueError
      else Inr (map (\<lambda>n. (n, map (\<lambda>m. (m, map_of g (n, m)))
                                 (sort (remdups (map (\<lambda>e. snd (fst e)) g)))))
                 (sort (remdups (map (\<lambda>e. fst (fst e)) g)))))"

text \<open>\<^verbatim>\<open>.fillna(0).astype(int)\<close>\<close>

definition fillna0 :: "(string \<times> (string \<times> int option) list) list \<Rightarrow> (string \<times> (string \<times> int) list) list" where
  "fillna0 t = map (\<lambda>(n, cs). (n, map (\<lambda>(m, v). (m, case v of None \<Rightarrow> 0 | Some c \<Rightarrow> c)) cs)) t"

definition pivot_by_node :: "pod_row list \<Rightarrow> error + (string \<times> (string \<times> int) list) list" where
  "pivot_by_node pods_df =
     bind_err (groupby_size (\<lambda>r. (node r, microservice r)) pods_df) (\<lambda>ms_node_df.
     bind_err (pivot ms_node_df) (\<lambda>t. Inr (fillna0 t)))"

definition pods_per_node :: "pod_row list \<Rightarrow> error + (string \<times> int) list" where
  "pods_per_node pods_df = groupby_size node pods_df"

text \<open>
  The tables of \<^verbatim>\<open>main\<close>: it returns before them when the frame of pods is empty,
  and builds the table by node and the counts per node otherwise.
\<close>

definition main_tables ::
  "pod_row list \<Rightarrow> (error + (string \<times> (string \<times> int) list) list \<times> (string \<times> int) list) option"
where
  "main_tables pods_df =
     (if pods_df = [] then None
      else Some (bind_err (pivot_by_node pods_df) (\<lambda>pivot_table.
                 bind_err (pods_per_node pods_df) (\<lambda>counts.
                   Inr (pivot_table, counts)))))"

text \<open>
  Reading the table: the cell of a node and a microservice, and the cells and the column
  labels of the line of a node.
\<close>

definition cell :: "(string \<times> (string \<times> int) list) list \<Rightarrow> string \<Rightarrow> string \<Rightarrow> int option" where
  "cell t n m = (case map_of t n of None \<Rightarrow> None | Some cs \<Rightarrow> map_of cs m)"

definition row_cells :: "(string \<times> (string \<times> int) list) list \<Rightarrow> string \<Rightarrow> int list" where
  "row_cells t n = (case map_of t n of None \<Rightarrow> [] | Some cs \<Rightarrow> map snd cs)"

definition row_columns :: "(string \<times> (string \<times> int) list) list \<Rightarrow> string \<Rightarrow> string list" where
  "row_columns t n = (case map_of t n of None \<Rightarrow> [] | Some cs \<Rightarrow> map fst cs)"

section \<open>Shapes of payloads\<close>

text \<open>
  The value under a chain of keys, when every key on the way is present in a dict.
\<close>

fun at_path :: "json \<Rightarrow> string list \<Rightarrow> json option" where
  "at_path j [] = Some j"
| "at_path (JObj kvs) (k # ks) = (case map_of kvs k of None \<Rightarrow> None | Some v \<Rightarrow> at_path v ks)"
| "at_path JNull (k # ks) = None"
| "at_path (JBool b) (k # ks) = None"
| "at_path (JInt i) (k # ks) = None"
| "at_path (JFloat x) (k # ks) = None"
| "at_path (JStr s) (k # ks) = None"
| "at_path (JArr xs) (k # ks) = None"

fun is_obj :: "json \<Rightarrow> bool" where
  "is_obj (JObj kvs) = True"
| "is_obj JNull = False"
| "is_obj (JBool b) = False"
| "is_obj (JInt i) = False"
| "is_obj (JFloat x) = False"
| "is_obj (JStr s) = False"
| "is_obj (JArr xs) = False"

definition obj_or_missing :: "json option \<Rightarrow> bool" where
  "obj_or_missing v = (case v of None \<Rightarrow> True | Some j \<Rightarrow> is_obj j)"

definition str_or_missing :: "json option \<Rightarrow> bool" where
  "str_or_missing v = (case v of None \<Rightarrow> True | Some (JStr s) \<Rightarrow> True | Some _ \<Rightarrow> False)"

text \<open>The items of a listing: the list under \<^verbatim>\<open>items\<close>, the empty list when the key is missing.\<close>

definition items_list :: "json \<Rightarrow> json list" where
  "items_list data = (case at_path data [''items''] of Some (JArr xs) \<Rightarrow> xs | _ \<Rightarrow> [])"

definition list_or_missing :: "json option \<Rightarrow> bool" where
  "list_or_missing v = (case v of None \<Rightarrow> True | Some (JArr xs) \<Rightarrow> True | Some _ \<Rightarrow> False)"

text \<open>
  A pod listing: a dict whose items, when present, are a list of dicts; in an item,
  \<^verbatim>\<open>metadata\<close>, \<^verbatim>\<open>spec\<close>, \<^verbatim>\<open>status\<close> and \<^verbatim>\<open>metadata.labels\<close> are dicts when
  present, and the five fields are strings when present.
\<close>

definition pod_item_ok :: "json \<Rightarrow> bool" where
  "pod_item_ok item \<longleftrightarrow>
     is_obj item \<and>
     obj_or_missing (at_path item [''metadata'']) \<and>
     obj_or_missing (at_path item [''spec'']) \<and>
     obj_or_missing (at_path item [''status'']) \<and>
     obj_or_missing (at_path item [''metadata'', ''labels'']) \<and>
     str_or_missing (at_path item [''metadata'', ''labels'', ''app'']) \<and>
     str_or_missing (at_path item [''metadata'', ''labels'', ''svc-id'']) \<and>
     str_or_missing (at_path item [''metadata'', ''name'']) \<and>
     str_or_missing (at_path item [''spec'', ''nodeName'']) \<and>
     str_or_missing (at_path item [''status'', ''phase''])"

definition pod_list_ok :: "json \<Rightarrow> bool" where
  "pod_list_ok data \<longleftrightarrow>
     is_obj data \<and> list_or_missing (at_path data [''items'']) \<and>
     list_all pod_item_ok (items_list data)"

text \<open>
  The PodRecord of an item in the words of the specification: each field is the string
  found in the item, and the empty string when the field is missing.
\<close>

definition field_or_empty :: "json \<Rightarrow> string list \<Rightarrow> string" where
  "field_or_empty j p = (case at_path j p of Some (JStr s) \<Rightarrow> s | _ \<Rightarrow> [])"

definition pod_record :: "json \<Rightarrow> pod_row" where
  "pod_record item =
     \<lparr>microservice = field_or_empty item [''metadata'', ''labels'', ''app''],
      svc_id = field_or_empty item [''metadata'', ''labels'', ''svc-id''],
      pod = field_or_empty item [''metadata'', ''name''],
      node = field_or_empty item [''spec'', ''nodeName''],
      phase = field_or_empty item [''status'', ''phase'']\<rparr>"

text \<open>The sort key of a pod row.\<close>

definition pod_key :: "pod_row \<Rightarrow> string \<times> string" where
  "pod_key r = (microservice r, pod r)"

subsection \<open>The number written in a quantity\<close>








section \<open>Example inputs\<close>

definition example_pods :: json where
  "example_pods =
     JObj [(''items'', JArr [
       JObj [(''metadata'', JObj [(''name'', JStr ''web-b''),
                                   (''labels'', JObj [(''app'', JStr ''svcA'')])]),
             (''spec'', JObj [(''nodeName'', JStr ''n2'')]),
             (''status'', JObj [(''phase'', JStr ''Running'')])],
       JObj [(''metadata'', JObj [(''name'', JStr ''web-a''),
                                   (''labels'', JObj [(''app'', JStr ''svcA''),
                                                      (''svc-id'', JStr ''1'')])]),
             (''status'', JObj [(''phase'', JStr ''Pending'')])],
       JObj [(''metadata'', JObj [(''name'', JStr ''lonely'')])]])]"








text \<open>Rows for the view: a capacity row of a node, and the utilization row of the line
  \<^verbatim>\<open>n 1 p 1Gi 12%\<close> for a node \<open>n\<close> and a cpu percentage \<open>p\<close>.\<close>

definition example_capacity :: "string \<Rightarrow> string node_row" where
  "example_capacity n =
     \<lparr>base_node = n, cpu_capacity_cores = Fin 4, mem_capacity_bytes = Fin 8589934592,
      cpu_alloc_cores = Fin 4, mem_alloc_bytes = Fin 8589934592\<rparr>"

definition example_usage :: "string \<Rightarrow> string \<Rightarrow> metric_row" where
  "example_usage n p =
     \<lparr>metric_node = n, cpu_used_cores_raw = ''1'', cpu_used_cores = Fin 1,
      cpu_used_pct = p, mem_used_bytes_raw = ''1Gi'', mem_used_bytes = Fin 1073741824,
      mem_used_pct = ''12%''\<rparr>"

definition example_pod :: "string \<Rightarrow> string \<Rightarrow> string \<Rightarrow> pod_row" where
  "example_pod ms p n = \<lparr>microservice = ms, svc_id = [], pod = p, node = n, phase = ''Running''\<rparr>"

text \<open>The scenario of the specification: two pods of svcA on n1, one pod of svcB on n2.\<close>

definition example_pod_rows :: "pod_row list" where
  "example_pod_rows =
     [example_pod ''svcA'' ''a1'' ''n1'', example_pod ''svcA'' ''a2'' ''n1'',
      example_pod ''svcB'' ''b1'' ''n2'']"

section \<open>Fetching the pod inventory\<close>

text \<open>
  C1. The claim: when the fetch of the pod listing fails or yields nothing,
  \<^verbatim>\<open>get_pods\<close> returns an empty sequence, and nothing raises. In the code
  \<^verbatim>\<open>run_cmd\<close> returns a triple, which is never false, so the guard on an empty
  output is never taken and \<^verbatim>\<open>json.loads\<close> raises TypeError on the triple:
  whatever the command does, and for every namespace, \<^verbatim>\<open>get_pods\<close> raises.
\<close>

theorem get_pods_raises_type_error:
  "get_pods exec loads namespace = Inl TypeError"
  by (simp add: get_pods_def Let_def bind_err_def)

text \<open>The node inventory stops at the same place, for the same reason.\<close>

lemma get_node_info_raises_type_error:
  "get_node_info exec loads str_of = Inl TypeError"
  by (simp add: get_node_info_def Let_def bind_err_def)

section \<open>Properties of the resource value parser\<close>

text \<open>The definitions that evaluate \<^verbatim>\<open>float\<close> and the parser on a given string.\<close>

lemmas float_defs = py_float_def float_strip_def float_space_def parse_signed_def
  parse_abs_def to_lower_def parse_decimal_def is_decimal_def parse_exponent_def
  nat_of_digits_def digit_val_def pow10_def

lemmas parser_defs = parse_resource_value_def endswith_def isdigit_def isdigit_char_def
  replace_first_dot_def multipliers_def

text \<open>
  C2. The claim: the parser never raises, and a recognised suffix with a remainder
  that is not a number gives 0.0. The millicore branch converts outside any
  \<^verbatim>\<open>try\<close>: on \<^verbatim>\<open>"xm"\<close> the conversion of \<^verbatim>\<open>"x"\<close> raises ValueError, and
  the parser raises with it.
\<close>

theorem parse_resource_value_millicore_raises:
  "parse_resource_value (Some ''xm'') = Inl ValueError"
  by (simp add: parser_defs float_defs)

text \<open>
  C3. The values of the parser on the inputs of the specification:
  \<^verbatim>\<open>"500m"\<close> gives 0.5, \<^verbatim>\<open>"2"\<close> gives 2.0, \<^verbatim>\<open>"128Mi"\<close> gives 134217728.0,
  \<^verbatim>\<open>"1Ki"\<close> gives 1024.0, and the empty string, \<^verbatim>\<open>"garbage"\<close> and None give 0.0.
\<close>

theorem parse_resource_value_examples:
  "parse_resource_value (Some ''500m'') = Inr (Fin (1 / 2)) \<and>
   parse_resource_value (Some ''2'') = Inr (Fin 2) \<and>
   parse_resource_value (Some ''128Mi'') = Inr (Fin 134217728) \<and>
   parse_resource_value (Some ''1Ki'') = Inr (Fin 1024) \<and>
   parse_resource_value (Some []) = Inr (Fin 0) \<and>
   parse_resource_value (Some ''garbage'') = Inr (Fin 0) \<and>
   parse_resource_value None = Inr (Fin 0)"
  by (simp add: parser_defs float_defs)

lemma replace_first_dot_append:
  "CHR ''.'' \<notin> set s \<Longrightarrow> replace_first_dot (x @ s) = replace_first_dot x @ s"
proof (induction x)
  case Nil
  then have "\<forall>c\<in>set s. c \<noteq> CHR ''.''" by auto
  then show ?case
    by (simp add: replace_first_dot_def takeWhile_eq_all_conv[THEN iffD2]
        dropWhile_eq_Nil_conv[THEN iffD2])
next
  case (Cons a x)
  then show ?case by (simp add: replace_first_dot_def)
qed

lemma endswith_append_self: "endswith (x @ s) s"
  by (simp add: endswith_def)

lemma endswith_append_same_length:
  "length s = length t \<Longrightarrow> endswith (x @ s) t \<longleftrightarrow> s = t"
  by (auto simp add: endswith_def)

lemma endswith_last: "endswith v suf \<Longrightarrow> suf \<noteq> [] \<Longrightarrow> v \<noteq> [] \<and> last v = last suf"
  unfolding endswith_def
  by (metis append_take_drop_id last_appendR length_0_conv le_zero_eq)

lemma binary_suffix_step:
  assumes "py_float x = Inr f" "(suf, k) \<in> set (take 4 multipliers)"
  shows "parse_resource_value (Some (x @ suf)) = Inr (fmul f (of_int k))"
proof -
  from assms(2) have suf: "suf \<in> {''Ki'', ''Mi'', ''Gi'', ''Ti''}"
    by (auto simp: multipliers_def)
  then have nd: "\<not> isdigit (replace_first_dot (x @ suf))"
    by (auto simp: replace_first_dot_append isdigit_def isdigit_char_def is_decimal_def)
  from suf have nm: "\<not> endswith (x @ suf) ''m''"
    by (auto dest!: endswith_last)
  from suf have ne: "suf \<noteq> []" by auto
  have "suffix_loop (x @ suf) multipliers = Inr (fmul f (of_int k))"
    using assms suf
    by (auto simp: multipliers_def endswith_append_self endswith_append_same_length)
  with nd nm ne show ?thesis by (simp add: parse_resource_value_def)
qed

text \<open>
  C4. A string made of a text \<open>x\<close> that \<^verbatim>\<open>float\<close> accepts and of one of the
  suffixes Ki, Mi, Gi, Ti is the float of \<open>x\<close> times 1024, 1024 squared, 1024 cubed
  and 1024 to the fourth: the two-character suffix decides, never the one-character suffix.
\<close>

theorem binary_suffix_multiplier:
  assumes "py_float x = Inr f"
  shows "parse_resource_value (Some (x @ ''Ki'')) = Inr (fmul f 1024) \<and>
         parse_resource_value (Some (x @ ''Mi'')) = Inr (fmul f (1024 ^ 2)) \<and>
         parse_resource_value (Some (x @ ''Gi'')) = Inr (fmul f (1024 ^ 3)) \<and>
         parse_resource_value (Some (x @ ''Ti'')) = Inr (fmul f (1024 ^ 4))"
  using binary_suffix_step[OF assms, of "''Ki''" 1024]
    binary_suffix_step[OF assms, of "''Mi''" "1024 ^ 2"]
    binary_suffix_step[OF assms, of "''Gi''" "1024 ^ 3"]
    binary_suffix_step[OF assms, of "''Ti''" "1024 ^ 4"]
  by (simp add: multipliers_def)

theorem binary_suffix_multiplier_witness:
  "py_float ''1.5'' = Inr (Fin (3 / 2)) \<and>
   parse_resource_value (Some ''1.5Ki'') = Inr (Fin 1536) \<and>
   parse_resource_value (Some ''1.5Mi'') = Inr (Fin 1572864) \<and>
   parse_resource_value (Some ''1.5Gi'') = Inr (Fin 1610612736) \<and>
   parse_resource_value (Some ''1.5Ti'') = Inr (Fin 1649267441664)"
proof -
  have h: "py_float ''1.5'' = Inr (Fin (3 / 2))" by (simp add: float_defs)
  show ?thesis using h binary_suffix_multiplier[OF h] by simp
qed

section \<open>Properties of the node view\<close>

lemma filter_key_distinct:
  "distinct (map f xs) \<Longrightarrow>
     filter (\<lambda>m. f m = k) xs = [] \<or> (\<exists>m. filter (\<lambda>m. f m = k) xs = [m])"
proof (induction xs)
  case Nil
  then show ?case by simp
next
  case (Cons x xs)
  show ?case
  proof (cases "f x = k")
    case True
    with Cons.prems have "\<forall>m\<in>set xs. f m \<noteq> k"
      by (metis distinct.simps(2) image_eqI list.simps(9) set_map)
    then have "filter (\<lambda>m. f m = k) xs = []" by (simp add: filter_empty_conv)
    with True show ?thesis by simp
  next
    case False
    with Cons show ?thesis by simp
  qed
qed

text \<open>The rows the join gives for one capacity row.\<close>

lemma joined_rows_fst:
  "map fst (case ms of [] \<Rightarrow> [(b, None)] | m # ms' \<Rightarrow> map (\<lambda>m. (b, Some m)) (m # ms'))
     = replicate (max 1 (length ms)) b"
  by (cases ms) (simp_all add: comp_def map_replicate_const)

lemma merge_left_fst:
  "map fst (merge_left base_df metrics_df)
     = concat (map (\<lambda>b. replicate
          (max 1 (length (filter (\<lambda>m. metric_node m = base_node b) metrics_df))) b) base_df)"
  unfolding merge_left_def
  by (induction base_df) (simp_all add: joined_rows_fst)

lemma concat_replicate_once: "concat (map (\<lambda>b. replicate (Suc 0) b) xs) = xs"
  by (induction xs) simp_all

lemma view_rows_fst:
  "map fst (view_rows (build_node_view base_df metrics_df))
     = concat (map (\<lambda>b. replicate
          (max 1 (length (filter (\<lambda>m. metric_node m = base_node b) metrics_df))) b) base_df)"
proof (cases "base_df \<noteq> [] \<and> metrics_df \<noteq> []")
  case True
  then show ?thesis by (simp add: build_node_view_def merge_left_fst)
next
  case False
  then consider "base_df = []" | "metrics_df = []" by blast
  then show ?thesis
  proof cases
    case 1
    then show ?thesis by (simp add: build_node_view_def)
  next
    case 2
    then show ?thesis by (simp add: build_node_view_def comp_def concat_replicate_once)
  qed
qed

lemma view_rows_once:
  assumes "distinct (map metric_node metrics_df)"
  shows "map fst (view_rows (build_node_view base_df metrics_df)) = base_df"
proof -
  have one: "max (Suc 0) (length (filter (\<lambda>m. metric_node m = base_node b) metrics_df)) = Suc 0"
    for b :: "string node_row"
    using filter_key_distinct[OF assms, of "base_node b"] by auto
  show ?thesis by (simp add: view_rows_fst one concat_replicate_once)
qed

lemma merge_left_snd:
  assumes "(b, u) \<in> set (merge_left base_df metrics_df)"
  shows "case u of
           None \<Rightarrow> base_node b \<notin> metric_node ` set metrics_df
         | Some m \<Rightarrow> m \<in> set metrics_df \<and> metric_node m = base_node b"
proof -
  from assms obtain x where
    m: "(b, u) \<in> set (case filter (\<lambda>m. metric_node m = base_node x) metrics_df of
                        [] \<Rightarrow> [(x, None)]
                      | ms \<Rightarrow> map (\<lambda>m. (x, Some m)) ms)"
    by (auto simp: merge_left_def)
  then have x: "x = b" by (auto split: list.splits)
  show ?thesis
  proof (cases "filter (\<lambda>m. metric_node m = base_node b) metrics_df")
    case Nil
    with m x have "u = None" by simp
    moreover from Nil have "base_node b \<notin> metric_node ` set metrics_df"
      by (auto simp: filter_empty_conv)
    ultimately show ?thesis by simp
  next
    case (Cons m' ms')
    with m x have "\<exists>k. u = Some k \<and> k \<in> set (filter (\<lambda>m. metric_node m = base_node b) metrics_df)"
      by auto
    then show ?thesis by auto
  qed
qed

lemma view_rows_snd:
  assumes "row \<in> set (view_rows (build_node_view base_df metrics_df))"
  shows "case snd row of
           None \<Rightarrow> base_node (fst row) \<notin> metric_node ` set metrics_df
         | Some m \<Rightarrow> m \<in> set metrics_df \<and> metric_node m = base_node (fst row)"
proof (cases "base_df \<noteq> [] \<and> metrics_df \<noteq> []")
  case True
  with assms have "(fst row, snd row) \<in> set (merge_left base_df metrics_df)"
    by (simp add: build_node_view_def)
  then show ?thesis by (rule merge_left_snd)
next
  case False
  with assms have "metrics_df = [] \<and> snd row = None"
    by (auto simp: build_node_view_def)
  then show ?thesis by simp
qed

text \<open>
  C6. The claim: every capacity row appears exactly once in the node view, also when
  the utilization rows repeat a node name. The left join gives a capacity row once per
  matching utilization row: with two utilization rows of node n1, the capacity row of
  n1 appears twice.
\<close>

theorem node_view_duplicate_usage_counterexample:
  "map fst (view_rows (build_node_view [example_capacity ''n1'']
        [example_usage ''n1'' ''25%'', example_usage ''n1'' ''30%'']))
     = [example_capacity ''n1'', example_capacity ''n1'']"
  by (simp add: build_node_view_def merge_left_def example_usage_def example_capacity_def)

text \<open>
  C6, amended. For all capacity rows and all utilization rows, the capacity rows of the
  view are the capacity rows given, in their order, each one as many times as there are
  utilization rows of its node name, and once when there is none. A row of the view
  carries a utilization row of the node name of its capacity row, or none when no
  utilization row has that name. So when no node name occurs twice among the utilization
  rows (names that no capacity row has are allowed), every capacity row appears exactly
  once.
\<close>

theorem node_view_one_row_per_capacity:
  "map fst (view_rows (build_node_view base_df metrics_df))
     = concat (map (\<lambda>b. replicate
          (max 1 (length (filter (\<lambda>m. metric_node m = base_node b) metrics_df))) b) base_df) \<and>
   (\<forall>row\<in>set (view_rows (build_node_view base_df metrics_df)).
      case snd row of
        None \<Rightarrow> base_node (fst row) \<notin> metric_node ` set metrics_df
      | Some m \<Rightarrow> m \<in> set metrics_df \<and> metric_node m = base_node (fst row)) \<and>
   (distinct (map metric_node metrics_df) \<longrightarrow>
      map fst (view_rows (build_node_view base_df metrics_df)) = base_df)"
  using view_rows_fst view_rows_snd view_rows_once by blast

theorem node_view_one_row_per_capacity_witness:
  "distinct (map metric_node [example_usage ''n1'' ''25%'', example_usage ''n3'' ''30%'']) \<and>
   map fst (view_rows (build_node_view [example_capacity ''n1'', example_capacity ''n2'']
      [example_usage ''n1'' ''25%'', example_usage ''n3'' ''30%'']))
     = [example_capacity ''n1'', example_capacity ''n2''] \<and>
   map snd (view_rows (build_node_view [example_capacity ''n1'', example_capacity ''n2'']
      [example_usage ''n1'' ''25%'', example_usage ''n3'' ''30%'']))
     = [Some (example_usage ''n1'' ''25%''), None]"
proof -
  have d: "distinct (map metric_node [example_usage ''n1'' ''25%'', example_usage ''n3'' ''30%''])"
    by (simp add: example_usage_def)
  have s: "map snd (view_rows (build_node_view [example_capacity ''n1'', example_capacity ''n2'']
      [example_usage ''n1'' ''25%'', example_usage ''n3'' ''30%'']))
     = [Some (example_usage ''n1'' ''25%''), None]"
    by (simp add: build_node_view_def merge_left_def example_usage_def example_capacity_def)
  from node_view_one_row_per_capacity
    [of "[example_capacity ''n1'', example_capacity ''n2'']"
        "[example_usage ''n1'' ''25%'', example_usage ''n3'' ''30%'']"] d s
  show ?thesis by blast
qed

text \<open>
  C7. With no utilization row the view is the base frame itself: no join is made, the
  rows are the capacity rows, as many and in their order, and no row has a utilization.
\<close>

theorem node_view_without_usage:
  "build_node_view base_df [] = Base base_df \<and>
   map fst (view_rows (build_node_view base_df [])) = base_df \<and>
   map snd (view_rows (build_node_view base_df [])) = replicate (length base_df) None"
  by (simp add: build_node_view_def comp_def map_replicate_const)

text \<open>
  C10. With no capacity row the view is the empty base frame, whatever the utilization
  rows are: no join is made, and no row of the view comes from a utilization row alone.
\<close>

theorem node_view_without_capacity:
  "build_node_view [] metrics_df = Base [] \<and> view_rows (build_node_view [] metrics_df) = []"
  by (simp add: build_node_view_def)

section \<open>Properties of the pod decoder\<close>

lemma is_obj_conv: "is_obj j \<longleftrightarrow> (\<exists>kvs. j = JObj kvs)"
  by (cases j) auto

lemma child_dict:
  assumes "is_obj d" "obj_or_missing (at_path d [k])"
  shows "\<exists>c. dict_get d k (JObj []) = Inr c \<and> is_obj c \<and>
             (\<forall>k' p. at_path c (k' # p) = at_path d (k # k' # p))"
proof -
  from assms(1) obtain kvs where d: "d = JObj kvs" by (auto simp: is_obj_conv)
  show ?thesis
  proof (cases "map_of kvs k")
    case None
    with d show ?thesis by simp
  next
    case (Some v)
    with d assms(2) have "is_obj v" by (simp add: obj_or_missing_def)
    with d Some show ?thesis by simp
  qed
qed

lemma child_text:
  assumes "is_obj d" "str_or_missing (at_path d [k])"
  shows "\<exists>c. dict_get d k (JStr []) = Inr c \<and> text_cell c = Inr (field_or_empty d [k])"
proof -
  from assms(1) obtain kvs where d: "d = JObj kvs" by (auto simp: is_obj_conv)
  show ?thesis
  proof (cases "map_of kvs k")
    case None
    with d show ?thesis by (simp add: field_or_empty_def)
  next
    case (Some v)
    with d assms(2) obtain s where "v = JStr s"
      by (cases v) (auto simp: str_or_missing_def)
    with d Some show ?thesis by (simp add: field_or_empty_def)
  qed
qed

text \<open>On an item of the expected shape the loop body builds the PodRecord of the item.\<close>

lemma pod_row_of_ok:
  assumes "pod_item_ok item"
  shows "pod_row_of item = Inr (pod_record item)"
proof -
  from assms have io: "is_obj item" by (simp add: pod_item_ok_def)
  from assms child_dict[OF io, of "''metadata''"] obtain meta where
    meta: "dict_get item ''metadata'' (JObj []) = Inr meta" "is_obj meta"
      "\<And>k' p. at_path meta (k' # p) = at_path item (''metadata'' # k' # p)"
    by (auto simp: pod_item_ok_def)
  from assms child_dict[OF io, of "''spec''"] obtain spec where
    spec: "dict_get item ''spec'' (JObj []) = Inr spec" "is_obj spec"
      "\<And>k' p. at_path spec (k' # p) = at_path item (''spec'' # k' # p)"
    by (auto simp: pod_item_ok_def)
  from assms child_dict[OF io, of "''status''"] obtain status where
    status: "dict_get item ''status'' (JObj []) = Inr status" "is_obj status"
      "\<And>k' p. at_path status (k' # p) = at_path item (''status'' # k' # p)"
    by (auto simp: pod_item_ok_def)
  from assms have "obj_or_missing (at_path meta [''labels''])"
    by (simp add: meta(3) pod_item_ok_def)
  from child_dict[OF meta(2) this] obtain labels where
    labels: "dict_get meta ''labels'' (JObj []) = Inr labels" "is_obj labels"
      "\<And>k' p. at_path labels (k' # p) = at_path item (''metadata'' # ''labels'' # k' # p)"
    by (auto simp: meta(3))
  from assms have s: "str_or_missing (at_path labels [''app''])"
    "str_or_missing (at_path labels [''svc-id''])"
    "str_or_missing (at_path meta [''name''])"
    "str_or_missing (at_path spec [''nodeName''])"
    "str_or_missing (at_path status [''phase''])"
    by (simp_all add: meta(3) spec(3) status(3) labels(3) pod_item_ok_def)
  from child_text[OF labels(2) s(1)] obtain c1 where
    c1: "dict_get labels ''app'' (JStr []) = Inr c1"
      "text_cell c1 = Inr (field_or_empty item [''metadata'', ''labels'', ''app''])"
    by (auto simp: field_or_empty_def labels(3))
  from child_text[OF labels(2) s(2)] obtain c2 where
    c2: "dict_get labels ''svc-id'' (JStr []) = Inr c2"
      "text_cell c2 = Inr (field_or_empty item [''metadata'', ''labels'', ''svc-id''])"
    by (auto simp: field_or_empty_def labels(3))
  from child_text[OF meta(2) s(3)] obtain c3 where
    c3: "dict_get meta ''name'' (JStr []) = Inr c3"
      "text_cell c3 = Inr (field_or_empty item [''metadata'', ''name''])"
    by (auto simp: field_or_empty_def meta(3))
  from child_text[OF spec(2) s(4)] obtain c4 where
    c4: "dict_get spec ''nodeName'' (JStr []) = Inr c4"
      "text_cell c4 = Inr (field_or_empty item [''spec'', ''nodeName''])"
    by (auto simp: field_or_empty_def spec(3))
  from child_text[OF status(2) s(5)] obtain c5 where
    c5: "dict_get status ''phase'' (JStr []) = Inr c5"
      "text_cell c5 = Inr (field_or_empty item [''status'', ''phase''])"
    by (auto simp: field_or_empty_def status(3))
  show ?thesis
    unfolding pod_row_of_def pod_record_def
    by (simp add: bind_err_def meta(1) spec(1) status(1) labels(1) c1 c2 c3 c4 c5)
qed

lemma map_err_total:
  "\<forall>x\<in>set xs. f x = Inr (g x) \<Longrightarrow> map_err f xs = Inr (map g xs)"
  by (induction xs) auto

lemma pod_rows_ok:
  assumes "pod_list_ok data"
  shows "pod_rows data = Inr (map pod_record (items_list data))"
proof -
  from assms obtain kvs where d: "data = JObj kvs"
    by (auto simp: pod_list_ok_def is_obj_conv)
  from assms have all: "\<forall>x\<in>set (items_list data). pod_row_of x = Inr (pod_record x)"
    by (auto simp: pod_list_ok_def list_all_iff pod_row_of_ok)
  show ?thesis
  proof (cases "map_of kvs ''items''")
    case None
    with d show ?thesis by (simp add: pod_rows_def bind_err_def items_list_def)
  next
    case (Some v)
    with d assms obtain xs where v: "v = JArr xs"
      by (cases v) (auto simp: pod_list_ok_def list_or_missing_def)
    with d Some have il: "items_list data = xs" by (simp add: items_list_def)
    with d Some v map_err_total[OF all] show ?thesis
      by (simp add: pod_rows_def bind_err_def)
  qed
qed

text \<open>
  C5. On a pod listing the decoder returns rows, as many as the listing has items,
  ascending in (microservice, pod); and for every key, the rows with that key are the
  PodRecords of the items with that key, in the order of the items: the sort is stable,
  and a missing field is the empty string.
\<close>

theorem decode_pods_sorted_stable:
  assumes "pod_list_ok data"
  shows "\<exists>rows. decode_pods data = Inr rows \<and>
           length rows = length (items_list data) \<and>
           sorted (map pod_key rows) \<and>
           (\<forall>k. filter (\<lambda>r. pod_key r = k) rows
                = filter (\<lambda>r. pod_key r = k) (map pod_record (items_list data)))"
proof -
  let ?raw = "map pod_record (items_list data)"
  have key: "pod_key = (\<lambda>r. (microservice r, pod r))" by (simp add: pod_key_def fun_eq_iff)
  have "decode_pods data = Inr (sort_key pod_key ?raw)"
    by (simp add: decode_pods_def pod_rows_ok[OF assms] bind_err_def sort_values_def key)
  moreover have "length (sort_key pod_key ?raw) = length (items_list data)" by simp
  moreover have "sorted (map pod_key (sort_key pod_key ?raw))" by (rule sorted_sort_key)
  moreover have "\<forall>k. filter (\<lambda>r. pod_key r = k) (sort_key pod_key ?raw)
                    = filter (\<lambda>r. pod_key r = k) ?raw"
    by (simp add: sort_key_stable)
  ultimately show ?thesis by blast
qed

theorem decode_pods_sorted_stable_witness:
  "pod_list_ok example_pods \<and>
   (\<exists>rows. decode_pods example_pods = Inr rows \<and>
           length rows = length (items_list example_pods) \<and>
           sorted (map pod_key rows) \<and>
           (\<forall>k. filter (\<lambda>r. pod_key r = k) rows
                = filter (\<lambda>r. pod_key r = k) (map pod_record (items_list example_pods))))"
proof -
  have h: "pod_list_ok example_pods"
    by (simp add: example_pods_def pod_list_ok_def items_list_def list_or_missing_def
        pod_item_ok_def obj_or_missing_def str_or_missing_def)
  show ?thesis using h decode_pods_sorted_stable[OF h] by simp
qed

section \<open>Properties of the pod count tables\<close>

lemma map_of_tabulate:
  "map_of (map (\<lambda>k. (k, f k)) ks) x = (if x \<in> set ks then Some (f x) else None)"
  by (induction ks) auto

lemma sort_remdups_cong:
  "set xs = set ys \<Longrightarrow> sort (remdups xs) = sort (remdups ys)"
  by (rule sorted_distinct_set_unique) simp_all

lemma groupby_size_ok:
  "rows \<noteq> [] \<Longrightarrow> groupby_size key rows =
     Inr (map (\<lambda>k. (k, int (length (filter (\<lambda>r. key r = k) rows))))
           (sort (remdups (map key rows))))"
  by (simp add: groupby_size_def)

text \<open>The table of a frame that has rows, written out.\<close>

lemma pivot_by_node_table:
  assumes "pods \<noteq> []"
  shows "pivot_by_node pods =
     Inr (map (\<lambda>n. (n, map (\<lambda>m. (m, int (length (filter (\<lambda>r. node r = n \<and> microservice r = m) pods))))
                            (sort (remdups (map microservice pods)))))
            (sort (remdups (map node pods))))"
proof -
  define key where "key = (\<lambda>r::pod_row. (node r, microservice r))"
  define cnt where "cnt = (\<lambda>k. int (length (filter (\<lambda>r. key r = k) pods)))"
  define ks where "ks = sort (remdups (map key pods))"
  define g where "g = map (\<lambda>k. (k, cnt k)) ks"
  define cols where "cols = sort (remdups (map microservice pods))"
  define idx where "idx = sort (remdups (map node pods))"
  have grp: "groupby_size (\<lambda>r. (node r, microservice r)) pods = Inr g"
    unfolding g_def ks_def cnt_def key_def by (rule groupby_size_ok[OF assms])
  have fstg: "map fst g = ks" by (simp add: g_def comp_def)
  have d: "distinct (map fst g)" unfolding fstg by (simp add: ks_def)
  have setks: "set ks = key ` set pods" by (simp add: ks_def)
  have i: "sort (remdups (map (\<lambda>e. fst (fst e)) g)) = idx"
    unfolding idx_def
    by (rule sort_remdups_cong) (auto simp: g_def setks key_def image_iff)
  have c: "sort (remdups (map (\<lambda>e. snd (fst e)) g)) = cols"
    unfolding cols_def
    by (rule sort_remdups_cong) (auto simp: g_def setks key_def image_iff)
  have val: "(case map_of g (n, m) of None \<Rightarrow> 0 | Some c \<Rightarrow> c)
              = int (length (filter (\<lambda>r. node r = n \<and> microservice r = m) pods))" for n m
  proof (cases "(n, m) \<in> set ks")
    case True
    then show ?thesis by (simp add: g_def map_of_tabulate cnt_def key_def)
  next
    case False
    then have "\<forall>r\<in>set pods. \<not> (node r = n \<and> microservice r = m)"
      by (auto simp: setks key_def image_iff)
    then have "filter (\<lambda>r. node r = n \<and> microservice r = m) pods = []"
      by (simp add: filter_empty_conv)
    with False show ?thesis by (simp add: g_def map_of_tabulate)
  qed
  have p: "pivot g = Inr (map (\<lambda>n. (n, map (\<lambda>m. (m, map_of g (n, m))) cols)) idx)"
    unfolding pivot_def i c using d by simp
  have f: "fillna0 (map (\<lambda>n. (n, map (\<lambda>m. (m, map_of g (n, m))) cols)) idx)
         = map (\<lambda>n. (n, map (\<lambda>m. (m, int (length (filter (\<lambda>r. node r = n \<and> microservice r = m) pods)))) cols)) idx"
    by (simp add: fillna0_def comp_def val)
  have "pivot_by_node pods =
      Inr (map (\<lambda>n. (n, map (\<lambda>m. (m, int (length (filter (\<lambda>r. node r = n \<and> microservice r = m) pods)))) cols)) idx)"
    unfolding pivot_by_node_def grp bind_err_def by (simp add: p f)
  then show ?thesis unfolding cols_def idx_def .
qed

lemma indicator_sum_list:
  "distinct ks \<Longrightarrow> a \<in> set ks \<Longrightarrow> (\<Sum>k\<leftarrow>ks. if a = k then (1::int) else 0) = 1"
  by (simp add: sum_list_distinct_conv_sum_set)

text \<open>Counting the rows key by key, over keys that cover the rows, counts every row once.\<close>

lemma count_split_by_key:
  assumes "distinct ks" "f ` set xs \<subseteq> set ks"
  shows "(\<Sum>k\<leftarrow>ks. int (length (filter (\<lambda>r. P r \<and> f r = k) xs))) = int (length (filter P xs))"
  using assms(2)
proof (induction xs)
  case Nil
  then show ?case by simp
next
  case (Cons x xs)
  then have IH: "(\<Sum>k\<leftarrow>ks. int (length (filter (\<lambda>r. P r \<and> f r = k) xs))) = int (length (filter P xs))"
    and mem: "f x \<in> set ks" by auto
  show ?case
  proof (cases "P x")
    case True
    have "(\<Sum>k\<leftarrow>ks. int (length (filter (\<lambda>r. P r \<and> f r = k) (x # xs))))
        = (\<Sum>k\<leftarrow>ks. (if f x = k then 1 else 0) + int (length (filter (\<lambda>r. P r \<and> f r = k) xs)))"
      using True by (intro arg_cong[where f = sum_list] map_cong) auto
    also have "\<dots> = (\<Sum>k\<leftarrow>ks. if f x = k then 1 else 0)
                     + (\<Sum>k\<leftarrow>ks. int (length (filter (\<lambda>r. P r \<and> f r = k) xs)))"
      by (simp add: sum_list_addf)
    also have "\<dots> = 1 + int (length (filter P xs))"
      using indicator_sum_list[OF assms(1) mem] IH by simp
    finally show ?thesis using True by simp
  next
    case False
    then show ?thesis using IH by simp
  qed
qed

text \<open>
  C8. For a frame of pod rows that has a row (\<^verbatim>\<open>main\<close> returns before the tables
  when it has none), the table and the counts per node are produced, and: the lines of
  the table are the nodes of the rows, each once and ascending; in the line of every
  such node the columns are the microservices of the rows, the cell of a microservice is
  the number of rows with that node and that microservice (0 when there is none), and
  the cells of the line add up to the count of the node, which is the number of rows
  with that node.
\<close>

theorem pivot_by_node_counts:
  assumes "pods \<noteq> []"
  shows "\<exists>t c. main_tables pods = Some (Inr (t, c)) \<and>
           pivot_by_node pods = Inr t \<and> pods_per_node pods = Inr c \<and>
           set (map fst t) = node ` set pods \<and> distinct (map fst t) \<and> sorted (map fst t) \<and>
           (\<forall>n\<in>node ` set pods.
              set (row_columns t n) = microservice ` set pods \<and>
              (\<forall>m\<in>microservice ` set pods.
                 cell t n m = Some (int (length (filter (\<lambda>r. node r = n \<and> microservice r = m) pods)))) \<and>
              map_of c n = Some (sum_list (row_cells t n)) \<and>
              sum_list (row_cells t n) = int (length (filter (\<lambda>r. node r = n) pods)))"
proof -
  define cols where "cols = sort (remdups (map microservice pods))"
  define idx where "idx = sort (remdups (map node pods))"
  define v where "v = (\<lambda>n m. int (length (filter (\<lambda>r. node r = n \<and> microservice r = m) pods)))"
  define w where "w = (\<lambda>n. int (length (filter (\<lambda>r. node r = n) pods)))"
  define t where "t = map (\<lambda>n. (n, map (\<lambda>m. (m, v n m)) cols)) idx"
  define c where "c = map (\<lambda>k. (k, w k)) idx"
  have t: "pivot_by_node pods = Inr t"
    unfolding t_def v_def cols_def idx_def by (rule pivot_by_node_table[OF assms])
  have c: "pods_per_node pods = Inr c"
    unfolding c_def w_def idx_def pods_per_node_def by (rule groupby_size_ok[OF assms])
  have fst_t: "map fst t = idx" by (simp add: t_def comp_def)
  have set_idx: "set idx = node ` set pods" and d_idx: "distinct idx" and s_idx: "sorted idx"
    by (simp_all add: idx_def)
  have set_cols: "set cols = microservice ` set pods" and d_cols: "distinct cols"
    by (simp_all add: cols_def)
  have row: "map_of t n = Some (map (\<lambda>m. (m, v n m)) cols)" if "n \<in> set idx" for n
    using that by (simp add: t_def map_of_tabulate)
  have sum: "sum_list (map (v n) cols) = w n" for n
    unfolding v_def w_def by (rule count_split_by_key[OF d_cols]) (simp add: set_cols)
  have per_node: "set (row_columns t n) = microservice ` set pods \<and>
              (\<forall>m\<in>microservice ` set pods. cell t n m = Some (v n m)) \<and>
              map_of c n = Some (sum_list (row_cells t n)) \<and>
              sum_list (row_cells t n) = w n"
    if "n \<in> node ` set pods" for n
  proof -
    from that have n: "n \<in> set idx" by (simp add: set_idx)
    have 1: "set (row_columns t n) = microservice ` set pods"
      unfolding row_columns_def row[OF n] by (simp add: comp_def set_cols)
    have 2: "\<forall>m\<in>microservice ` set pods. cell t n m = Some (v n m)"
      unfolding cell_def row[OF n] by (simp add: map_of_tabulate set_cols)
    have 3: "sum_list (row_cells t n) = w n"
      unfolding row_cells_def row[OF n] using sum[of n] by (simp add: comp_def)
    have 4: "map_of c n = Some (sum_list (row_cells t n))"
      unfolding 3 c_def using n by (simp add: map_of_tabulate)
    from 1 2 3 4 show ?thesis by simp
  qed
  have m: "main_tables pods = Some (Inr (t, c))"
    using assms by (simp add: main_tables_def t c bind_err_def)
  have "main_tables pods = Some (Inr (t, c)) \<and>
           pivot_by_node pods = Inr t \<and> pods_per_node pods = Inr c \<and>
           set (map fst t) = node ` set pods \<and> distinct (map fst t) \<and> sorted (map fst t) \<and>
           (\<forall>n\<in>node ` set pods.
              set (row_columns t n) = microservice ` set pods \<and>
              (\<forall>m\<in>microservice ` set pods. cell t n m = Some (v n m)) \<and>
              map_of c n = Some (sum_list (row_cells t n)) \<and>
              sum_list (row_cells t n) = w n)"
    using m t c per_node by (simp add: fst_t set_idx d_idx s_idx)
  then show ?thesis unfolding v_def w_def by blast
qed

theorem pivot_by_node_counts_witness:
  "example_pod_rows \<noteq> [] \<and>
   (\<exists>t c. main_tables example_pod_rows = Some (Inr (t, c)) \<and>
      pivot_by_node example_pod_rows = Inr t \<and> pods_per_node example_pod_rows = Inr c \<and>
      set (map fst t) = {''n1'', ''n2''} \<and>
      set (row_columns t ''n1'') = {''svcA'', ''svcB''} \<and>
      cell t ''n1'' ''svcA'' = Some 2 \<and> cell t ''n1'' ''svcB'' = Some 0 \<and>
      cell t ''n2'' ''svcA'' = Some 0 \<and> cell t ''n2'' ''svcB'' = Some 1 \<and>
      map_of c ''n1'' = Some 2 \<and> sum_list (row_cells t ''n1'') = 2 \<and>
      map_of c ''n2'' = Some 1 \<and> sum_list (row_cells t ''n2'') = 1)"
proof -
  have ne: "example_pod_rows \<noteq> []" by (simp add: example_pod_rows_def)
  have nodes: "node ` set example_pod_rows = {''n1'', ''n2''}"
    by (simp add: example_pod_rows_def example_pod_def)
  have mss: "microservice ` set example_pod_rows = {''svcA'', ''svcB''}"
    by (simp add: example_pod_rows_def example_pod_def)
  from pivot_by_node_counts[OF ne] obtain t c where
    m: "main_tables example_pod_rows = Some (Inr (t, c))" and
    t: "pivot_by_node example_pod_rows = Inr t" and c: "pods_per_node example_pod_rows = Inr c"
    and rows: "set (map fst t) = node ` set example_pod_rows"
    and cells: "\<forall>n\<in>node ` set example_pod_rows.
              set (row_columns t n) = microservice ` set example_pod_rows \<and>
              (\<forall>m\<in>microservice ` set example_pod_rows.
                 cell t n m = Some (int (length (filter (\<lambda>r. node r = n \<and> microservice r = m) example_pod_rows)))) \<and>
              map_of c n = Some (sum_list (row_cells t n)) \<and>
              sum_list (row_cells t n) = int (length (filter (\<lambda>r. node r = n) example_pod_rows))"
    by blast
  from cells have
    "set (row_columns t ''n1'') = {''svcA'', ''svcB''}"
    "cell t ''n1'' ''svcA'' = Some 2" "cell t ''n1'' ''svcB'' = Some 0"
    "cell t ''n2'' ''svcA'' = Some 0" "cell t ''n2'' ''svcB'' = Some 1"
    "map_of c ''n1'' = Some 2" "sum_list (row_cells t ''n1'') = 2"
    "map_of c ''n2'' = Some 1" "sum_list (row_cells t ''n2'') = 1"
    unfolding nodes mss by (simp_all add: example_pod_rows_def example_pod_def)
  with ne m t c rows nodes show ?thesis by auto
qed

section \<open>Signs of the decoded quantities\<close>

















end
